theory Spec2Isabelle
  imports Main
begin

section \<open>Command: one process invocation (command.h)\<close>

subsection \<open>Data model\<close>

text \<open>
  The private fields of \<^verbatim>\<open>class Command\<close>, in declaration order, named as in
  the source without the trailing underscore. The two C arrays
  \<^verbatim>\<open>std::string fifo_path_[2]\<close> and \<^verbatim>\<open>int pipe_[2]\<close> have a fixed length of two
  and are pairs here. The descriptors are only ever copied and compared with the
  sentinel \<open>-1\<close>; no arithmetic is done on them, so they are plain integers.
\<close>

record Command =
  path :: string
  args :: "string list"
  env :: "string list"
  out :: string
  err :: string
  full_command_string :: string
  fifo_path :: "string \<times> string"
  pipe :: "int \<times> int"

subsection \<open>Rendering\<close>

text \<open>Pieces joined by one space, with no leading and no trailing space.\<close>

fun join_spaces :: "string list \<Rightarrow> string" where
  "join_spaces [] = []"
| "join_spaces [s] = s"
| "join_spaces (s # t # ts) = s @ '' '' @ join_spaces (t # ts)"

text \<open>
  Modelled from the spec: the redirection clauses of \<^verbatim>\<open>Command::ToString\<close>, which
  command.h declares and whose body is in no file of the sources. The spec gives
  \<^verbatim>\<open>[> out] [2>& err]\<close>, each clause present only when its target is non-empty, and
  one merged clause when \<^verbatim>\<open>out == err\<close> and both are non-empty. The spec does not give
  the bytes of the merged clause, so its rendering of the shared target is the
  parameter \<open>merged\<close>.
\<close>

definition redirections :: "(string \<Rightarrow> string) \<Rightarrow> string \<Rightarrow> string \<Rightarrow> string list" where
  "redirections merged ot er =
     (if ot \<noteq> [] \<and> er \<noteq> [] \<and> ot = er then [merged ot]
      else (if ot \<noteq> [] then [''> '' @ ot] else []) @
           (if er \<noteq> [] then [''2>& '' @ er] else []))"

text \<open>
  Modelled from the spec: \<^verbatim>\<open>Command::ToString\<close> (declared in command.h, body absent):
  \<^verbatim>\<open>ENV1=VAL1 ENV2=VAL2 path arg1 arg2 [> out] [2>& err]\<close>. It is a \<^verbatim>\<open>const\<close> member
  and reads the five constructor inputs only.
\<close>

definition ToString :: "(string \<Rightarrow> string) \<Rightarrow> Command \<Rightarrow> string" where
  "ToString merged c =
     join_spaces (env c @ [path c] @ args c @ redirections merged (out c) (err c))"

subsection \<open>Construction\<close>

text \<open>
  \<^verbatim>\<open>Command(path, args, env, out, err)\<close>: the member initialisers copy the five
  arguments; the body is empty. Members are initialised in declaration order, so the
  default member initialiser \<^verbatim>\<open>full_command_string_ = ToString()\<close> runs after the
  five inputs are in place and before \<^verbatim>\<open>fifo_path_\<close> (two empty strings) and
  \<^verbatim>\<open>pipe_ = {-1, -1}\<close>.
\<close>

definition Command_ctor ::
  "(string \<Rightarrow> string) \<Rightarrow> string \<Rightarrow> string list \<Rightarrow> string list \<Rightarrow> string \<Rightarrow> string \<Rightarrow> Command" where
  "Command_ctor merged p a e ot er =
     (let this = \<lparr>path = p, args = a, env = e, out = ot, err = er,
                  full_command_string = [], fifo_path = ([], []), pipe = (-1, -1)\<rparr>
      in this\<lparr>full_command_string := ToString merged this\<rparr>)"

text \<open>
  The outcome of running the constructor, with \<open>None\<close> for a failure at
  construction time. The constructor of command.h has a member-initialiser list and
  an empty body: it has no check, no \<^verbatim>\<open>throw\<close> and no early exit, so no input
  takes the \<open>None\<close> branch.
\<close>

definition construct ::
  "(string \<Rightarrow> string) \<Rightarrow> string \<Rightarrow> string list \<Rightarrow> string list \<Rightarrow> string \<Rightarrow> string \<Rightarrow> Command option" where
  "construct merged p a e ot er = Some (Command_ctor merged p a e ot er)"

text \<open>
  The form the spec asks of an env entry, \<^verbatim>\<open>KEY=VALUE\<close>: an \<^verbatim>\<open>=\<close> with a
  non-empty key in front of it. This predicate follows the spec's words; command.h has
  no counterpart of it.
\<close>

definition key_value_form :: "string \<Rightarrow> bool" where
  "key_value_form s \<longleftrightarrow> CHR ''='' \<in> set s \<and> takeWhile (\<lambda>x. x \<noteq> CHR ''='') s \<noteq> []"

subsection \<open>Move construction\<close>

text \<open>
  \<^verbatim>\<open>Command(Command&& other)\<close>. The result is the pair of the new object and of
  \<open>other\<close> as the constructor leaves it.

  \<^item> \<^verbatim>\<open>path_\<close>, \<^verbatim>\<open>args_\<close>, \<^verbatim>\<open>env_\<close>, \<^verbatim>\<open>out_\<close> and \<^verbatim>\<open>err_\<close> are declared
    \<^verbatim>\<open>const\<close>: \<^verbatim>\<open>std::move\<close> of a const member is a const rvalue, which selects the
    copy constructor, so \<open>other\<close> keeps them.
  \<^item> \<^verbatim>\<open>full_command_string_\<close> and the two \<^verbatim>\<open>fifo_path_\<close> strings are not const and
    are moved out of \<open>other\<close>. The C++ standard leaves a moved-from string valid
    but unspecified; libstdc++ and libc++ both leave it empty, and that is the value
    taken here.
  \<^item> The descriptors are copied, and the body then sets both of \<open>other\<close>'s to \<open>-1\<close>.
\<close>

definition Command_move :: "Command \<Rightarrow> Command \<times> Command" where
  "Command_move other =
     (\<lparr>path = path other, args = args other, env = env other, out = out other,
       err = err other, full_command_string = full_command_string other,
       fifo_path = (fst (fifo_path other), snd (fifo_path other)),
       pipe = (fst (pipe other), snd (pipe other))\<rparr>,
      other\<lparr>full_command_string := [], fifo_path := ([], []), pipe := (-1, -1)\<rparr>)"

subsection \<open>Destruction\<close>

text \<open>What a destructor asks of the operating system, in order.\<close>

datatype os_action = Stop_Fork_Server | Close_Fd int | Remove_File string

text \<open>
  A fork server is active for an instance when neither descriptor is the \<open>-1\<close>
  "not open" sentinel.
\<close>

definition fork_server_active :: "Command \<Rightarrow> bool" where
  "fork_server_active c \<longleftrightarrow> fst (pipe c) \<noteq> -1 \<and> snd (pipe c) \<noteq> -1"

text \<open>
  Modelled from the spec: \<^verbatim>\<open>Command::~Command\<close> (declared in command.h with the
  comment "Cleans up the fork server, if that was created"; body absent). The spec:
  if a fork server is active, the destructor signals it to terminate, closes both pipe
  descriptors and removes the named-pipe files; otherwise it does nothing.
\<close>

definition Command_dtor :: "Command \<Rightarrow> os_action list" where
  "Command_dtor c =
     (if fork_server_active c
      then [Stop_Fork_Server, Close_Fd (fst (pipe c)), Close_Fd (snd (pipe c)),
            Remove_File (fst (fifo_path c)), Remove_File (snd (fifo_path c))]
      else [])"

subsection \<open>Fork server and execution\<close>

text \<open>
  How the handshake with the target ended: established, with the descriptors the
  operating system gave for the request and the response pipe, or failed because the
  target does not implement the protocol or because the handshake timed out.
\<close>

datatype handshake = Established int int | Unsupported | Timed_Out

definition fifo_name :: "string \<Rightarrow> string \<Rightarrow> string \<Rightarrow> string" where
  "fifo_name temp_dir_path prefix role = temp_dir_path @ ''/'' @ prefix @ role"

text \<open>
  Modelled from the spec: \<^verbatim>\<open>Command::StartForkServer\<close> (declared in command.h, body
  absent). The two pipes are created in \<open>temp_dir_path\<close> and named from \<open>prefix\<close>
  and a role suffix; the spec does not give the suffixes, so the pair \<open>roles\<close> is a
  parameter. The call returns true when the handshake is established, and the instance
  then holds the pipe paths and descriptors. It returns false otherwise, and the
  instance then has no fork-server state, which the spec says is present only while a
  fork server is active.
\<close>

definition StartForkServer ::
  "string \<times> string \<Rightarrow> string \<Rightarrow> string \<Rightarrow> handshake \<Rightarrow> Command \<Rightarrow> bool \<times> Command" where
  "StartForkServer roles temp_dir_path prefix h c =
     (case h of
        Established request_fd response_fd \<Rightarrow>
          (True, c\<lparr>fifo_path := (fifo_name temp_dir_path prefix (fst roles),
                                  fifo_name temp_dir_path prefix (snd roles)),
                    pipe := (request_fd, response_fd)\<rparr>)
      | Unsupported \<Rightarrow> (False, c\<lparr>fifo_path := ([], []), pipe := (-1, -1)\<rparr>)
      | Timed_Out \<Rightarrow> (False, c\<lparr>fifo_path := ([], []), pipe := (-1, -1)\<rparr>))"

text \<open>
  What the operating system and the target answer during one \<^verbatim>\<open>Execute\<close> call:
  the decoded status of a process spawned from path, args, env, out and err; the status
  read back from a fork server through the two descriptors, or \<open>None\<close> on an I/O
  error on either pipe; and the sentinel status reported in that case, whose value the
  spec leaves open.
\<close>

record exec_env =
  direct_exec :: "string \<Rightarrow> string list \<Rightarrow> string list \<Rightarrow> string \<Rightarrow> string \<Rightarrow> int"
  fork_server_exec :: "int \<Rightarrow> int \<Rightarrow> int option"
  failure_status :: int

text \<open>
  Modelled from the spec: \<^verbatim>\<open>Command::Execute\<close> (declared in command.h, body absent).
  With an active fork server the call goes through the pipes; an I/O error yields the
  sentinel status and disables the fork-server path of the instance. Without one, a
  fresh process is spawned and waited for. A signal that arrives during the wait is
  outside this sequential model.
\<close>

definition Execute :: "exec_env \<Rightarrow> Command \<Rightarrow> int \<times> Command" where
  "Execute os c =
     (if fork_server_active c
      then (case fork_server_exec os (fst (pipe c)) (snd (pipe c)) of
              Some status \<Rightarrow> (status, c)
            | None \<Rightarrow> (failure_status os, c\<lparr>pipe := (-1, -1)\<rparr>))
      else (direct_exec os (path c) (args c) (env c) (out c) (err c), c))"

text \<open>Successive \<^verbatim>\<open>Execute\<close> calls on one instance, one environment per call.\<close>

fun Execute_all :: "exec_env list \<Rightarrow> Command \<Rightarrow> int list \<times> Command" where
  "Execute_all [] c = ([], c)"
| "Execute_all (os # oss) c =
     (case Execute os c of (status, c') \<Rightarrow>
        (case Execute_all oss c' of (statuses, c'') \<Rightarrow> (status # statuses, c'')))"

subsection \<open>Live instances\<close>

text \<open>
  The program state the ownership claims are about: the live \<^verbatim>\<open>Command\<close> objects,
  each under its own address; the descriptors the process has open; and what the
  destructors have asked of the operating system so far.
\<close>

record world =
  objs :: "nat \<Rightarrow> Command option"
  open_fds :: "int set"
  os_log :: "os_action list"

text \<open>
  Every way the class lets a program create, change or end an instance. The copy
  constructor and both assignment operators are deleted in command.h, so there is no
  operation for them.
\<close>

datatype op =
    Construct nat string "string list" "string list" string string
  | Move_Construct nat nat
  | Destroy nat
  | Start_Fork_Server nat string string handshake
  | Exec nat exec_env
  | To_String nat

fun closed_fds :: "os_action list \<Rightarrow> int set" where
  "closed_fds [] = {}"
| "closed_fds (Close_Fd fd # acts) = insert fd (closed_fds acts)"
| "closed_fds (_ # acts) = closed_fds acts"

text \<open>
  The operating system opens a pipe under a descriptor that is non-negative and not
  open already, and two pipes under two descriptors.
\<close>

fun os_grants :: "world \<Rightarrow> handshake \<Rightarrow> bool" where
  "os_grants w (Established request_fd response_fd) \<longleftrightarrow>
     0 \<le> request_fd \<and> 0 \<le> response_fd \<and> request_fd \<noteq> response_fd \<and>
     request_fd \<notin> open_fds w \<and> response_fd \<notin> open_fds w"
| "os_grants w _ \<longleftrightarrow> True"

fun granted_fds :: "handshake \<Rightarrow> int set" where
  "granted_fds (Established request_fd response_fd) = {request_fd, response_fd}"
| "granted_fds _ = {}"

text \<open>
  One operation on the world; \<open>None\<close> when the program cannot perform it (the
  address is taken, the object is not live, or the descriptors are not ones the
  operating system can hand out). \<open>Move_Construct src dst\<close> is
  \<^verbatim>\<open>Command dst = std::move(src)\<close>.
\<close>

fun step :: "(string \<Rightarrow> string) \<Rightarrow> string \<times> string \<Rightarrow> world \<Rightarrow> op \<Rightarrow> world option" where
  "step merged roles w (Construct i p a e ot er) =
     (if objs w i = None
      then Some (w\<lparr>objs := (objs w)(i \<mapsto> Command_ctor merged p a e ot er)\<rparr>)
      else None)"
| "step merged roles w (Move_Construct src dst) =
     (case objs w src of
        None \<Rightarrow> None
      | Some other \<Rightarrow>
          if objs w dst = None
          then (case Command_move other of
                  (new, other') \<Rightarrow> Some (w\<lparr>objs := (objs w)(dst \<mapsto> new, src \<mapsto> other')\<rparr>))
          else None)"
| "step merged roles w (Destroy i) =
     (case objs w i of
        None \<Rightarrow> None
      | Some c \<Rightarrow>
          Some (w\<lparr>objs := (objs w)(i := None),
                  open_fds := open_fds w - closed_fds (Command_dtor c),
                  os_log := os_log w @ Command_dtor c\<rparr>))"
| "step merged roles w (Start_Fork_Server i temp_dir_path prefix h) =
     (case objs w i of
        None \<Rightarrow> None
      | Some c \<Rightarrow>
          if os_grants w h
          then Some (w\<lparr>objs := (objs w)(i \<mapsto> snd (StartForkServer roles temp_dir_path prefix h c)),
                       open_fds := open_fds w \<union> granted_fds h\<rparr>)
          else None)"
| "step merged roles w (Exec i os) =
     (case objs w i of
        None \<Rightarrow> None
      | Some c \<Rightarrow> Some (w\<lparr>objs := (objs w)(i \<mapsto> snd (Execute os c))\<rparr>))"
| "step merged roles w (To_String i) =
     (case objs w i of None \<Rightarrow> None | Some c \<Rightarrow> Some w)"

fun run :: "(string \<Rightarrow> string) \<Rightarrow> string \<times> string \<Rightarrow> world \<Rightarrow> op list \<Rightarrow> world option" where
  "run merged roles w [] = Some w"
| "run merged roles w (x # xs) =
     (case step merged roles w x of None \<Rightarrow> None | Some w' \<Rightarrow> run merged roles w' xs)"

text \<open>The descriptors an instance holds open: those of its two that are not \<open>-1\<close>.\<close>

definition owned_fds :: "Command \<Rightarrow> int set" where
  "owned_fds c = {fst (pipe c), snd (pipe c)} - {-1}"

definition single_owner :: "world \<Rightarrow> bool" where
  "single_owner w \<longleftrightarrow>
     (\<forall>i j ci cj. i \<noteq> j \<longrightarrow> objs w i = Some ci \<longrightarrow> objs w j = Some cj \<longrightarrow>
        owned_fds ci \<inter> owned_fds cj = {})"

definition owned_open :: "world \<Rightarrow> bool" where
  "owned_open w \<longleftrightarrow> (\<forall>i c. objs w i = Some c \<longrightarrow> owned_fds c \<subseteq> open_fds w)"

definition ownership_inv :: "world \<Rightarrow> bool" where
  "ownership_inv w \<longleftrightarrow> single_owner w \<and> owned_open w"

text \<open>The world before any \<^verbatim>\<open>Command\<close> exists; the standard streams are open.\<close>

definition start_world :: world where
  "start_world = \<lparr>objs = Map.empty, open_fds = {0, 1, 2}, os_log = []\<rparr>"

fun is_start_on :: "nat \<Rightarrow> op \<Rightarrow> bool" where
  "is_start_on i (Start_Fork_Server j _ _ _) \<longleftrightarrow> i = j"
| "is_start_on i _ \<longleftrightarrow> False"

fun is_move_from :: "nat \<Rightarrow> op \<Rightarrow> bool" where
  "is_move_from i (Move_Construct src _) \<longleftrightarrow> i = src"
| "is_move_from i _ \<longleftrightarrow> False"

text \<open>The five constructor inputs an instance holds.\<close>

definition inputs :: "Command \<Rightarrow> string \<times> string list \<times> string list \<times> string \<times> string" where
  "inputs c = (path c, args c, env c, out c, err c)"

section \<open>Resource profiler (rusage_profiler.h, as rusage_profiler_test.cc uses it)\<close>

subsection \<open>Samples\<close>

text \<open>
  The fields that rusage_profiler_test.cc reads from a timing and from a memory sample.
  Durations and sizes are integers (ticks and bytes). The two ratio fields are
  doubles in the test; their arithmetic is not modelled, so their type \<open>'r\<close> is
  left open and the two computations are parameters: \<open>ratio cpu wall\<close> is the
  utilization for a CPU time and a wall time, and \<open>cores u\<close> is the hyper-core
  count for a utilization.
\<close>

record 'r RUsageTiming =
  wall_time :: int
  user_time :: int
  sys_time :: int
  cpu_utilization :: 'r
  cpu_hyper_cores :: 'r

record RUsageMemory =
  mem_vsize :: int
  mem_vpeak :: int
  mem_rss :: int
  mem_data :: int

text \<open>
  Modelled from the spec: the timing sample for given wall, user and system times
  (\<^verbatim>\<open>RUsageTiming::Snapshot\<close>, in no file of the sources): utilization is computed
  from user plus system time and wall time, the hyper-core count from the utilization.
\<close>

definition timing_of :: "(int \<Rightarrow> int \<Rightarrow> 'r) \<Rightarrow> ('r \<Rightarrow> 'r) \<Rightarrow> int \<Rightarrow> int \<Rightarrow> int \<Rightarrow> 'r RUsageTiming" where
  "timing_of ratio cores wall user sys =
     \<lparr>wall_time = wall, user_time = user, sys_time = sys,
      cpu_utilization = ratio (user + sys) wall,
      cpu_hyper_cores = cores (ratio (user + sys) wall)\<rparr>"

text \<open>
  Modelled from the spec: the difference of two samples of one kind
  (\<^verbatim>\<open>operator-\<close>, which the test applies to \<^verbatim>\<open>RUsageTiming\<close> and
  \<^verbatim>\<open>RUsageMemory\<close>; in no file of the sources). Each field is the arithmetic
  difference, except that utilization and hyper-core count of a timing difference are
  recomputed from the differenced times.
\<close>

definition timing_minus ::
  "(int \<Rightarrow> int \<Rightarrow> 'r) \<Rightarrow> ('r \<Rightarrow> 'r) \<Rightarrow> 'r RUsageTiming \<Rightarrow> 'r RUsageTiming \<Rightarrow> 'r RUsageTiming" where
  "timing_minus ratio cores a b =
     timing_of ratio cores (wall_time a - wall_time b) (user_time a - user_time b)
       (sys_time a - sys_time b)"

definition memory_minus :: "RUsageMemory \<Rightarrow> RUsageMemory \<Rightarrow> RUsageMemory" where
  "memory_minus a b =
     \<lparr>mem_vsize = mem_vsize a - mem_vsize b, mem_vpeak = mem_vpeak a - mem_vpeak b,
      mem_rss = mem_rss a - mem_rss b, mem_data = mem_data a - mem_data b\<rparr>"

definition zero_timing :: "('r::zero) RUsageTiming" where
  "zero_timing = \<lparr>wall_time = 0, user_time = 0, sys_time = 0, cpu_utilization = 0, cpu_hyper_cores = 0\<rparr>"

definition zero_memory :: RUsageMemory where
  "zero_memory = \<lparr>mem_vsize = 0, mem_vpeak = 0, mem_rss = 0, mem_data = 0\<rparr>"

subsection \<open>Snapshots and the profiler\<close>

record 'r Snapshot =
  label :: string
  time :: int
  timing :: "'r RUsageTiming"
  delta_timing :: "'r RUsageTiming"
  memory :: RUsageMemory
  delta_memory :: RUsageMemory

record 'r RUsageProfiler =
  snapshots :: "'r Snapshot list"

definition new_profiler :: "'r RUsageProfiler" where
  "new_profiler = \<lparr>snapshots = []\<rparr>"

text \<open>
  What one capture reads: the label given by the caller, the clock, and the timing and
  memory samples read from the operating system under the profiler's metric selection.
\<close>

record 'r capture =
  at_label :: string
  at_time :: int
  timing_now :: "'r RUsageTiming"
  memory_now :: RUsageMemory

text \<open>
  Modelled from the spec: \<^verbatim>\<open>RUsageProfiler::TakeSnapshot\<close> (called by the test; in
  no file of the sources). It computes the delta against the previous snapshot of this
  instance, the zero delta if there is none, appends the new snapshot and returns it.
\<close>

definition TakeSnapshot ::
  "(int \<Rightarrow> int \<Rightarrow> 'r) \<Rightarrow> ('r \<Rightarrow> 'r) \<Rightarrow> 'r capture \<Rightarrow> ('r::zero) RUsageProfiler \<Rightarrow>
     'r Snapshot \<times> 'r RUsageProfiler" where
  "TakeSnapshot ratio cores cap p =
     (let s = \<lparr>label = at_label cap, time = at_time cap,
                timing = timing_now cap,
                delta_timing =
                  (if snapshots p = [] then zero_timing
                   else timing_minus ratio cores (timing_now cap) (timing (last (snapshots p)))),
                memory = memory_now cap,
                delta_memory =
                  (if snapshots p = [] then zero_memory
                   else memory_minus (memory_now cap) (memory (last (snapshots p))))\<rparr>
      in (s, p\<lparr>snapshots := snapshots p @ [s]\<rparr>))"

text \<open>
  A profiler's snapshot sequence grows by \<open>TakeSnapshot\<close> only, whether the call is
  manual, scoped or made by a timelapse.
\<close>

fun take_snapshots ::
  "(int \<Rightarrow> int \<Rightarrow> 'r) \<Rightarrow> ('r \<Rightarrow> 'r) \<Rightarrow> 'r capture list \<Rightarrow> ('r::zero) RUsageProfiler \<Rightarrow> 'r RUsageProfiler" where
  "take_snapshots ratio cores [] p = p"
| "take_snapshots ratio cores (cap # caps) p =
     take_snapshots ratio cores caps (snd (TakeSnapshot ratio cores cap p))"

text \<open>The first delta is zero; every later one is the difference to its predecessor.\<close>

definition deltas_ok :: "(int \<Rightarrow> int \<Rightarrow> 'r) \<Rightarrow> ('r \<Rightarrow> 'r) \<Rightarrow> ('r::zero) Snapshot list \<Rightarrow> bool" where
  "deltas_ok ratio cores ss \<longleftrightarrow>
     (ss \<noteq> [] \<longrightarrow> delta_timing (ss ! 0) = zero_timing \<and> delta_memory (ss ! 0) = zero_memory) \<and>
     (\<forall>i. Suc i < length ss \<longrightarrow>
        delta_timing (ss ! Suc i) = timing_minus ratio cores (timing (ss ! Suc i)) (timing (ss ! i)) \<and>
        delta_memory (ss ! Suc i) = memory_minus (memory (ss ! Suc i)) (memory (ss ! i)))"

text \<open>A utilization arithmetic to evaluate with: whole percent.\<close>

definition percent :: "int \<Rightarrow> int \<Rightarrow> int" where
  "percent cpu wall = (if wall = 0 then 0 else (100 * cpu) div wall)"

section \<open>Rendering of a constructed command\<close>










section \<open>Ownership of the pipe descriptors\<close>

lemma single_ownerD:
  "single_owner w \<Longrightarrow> i \<noteq> j \<Longrightarrow> objs w i = Some ci \<Longrightarrow> objs w j = Some cj \<Longrightarrow>
     owned_fds ci \<inter> owned_fds cj = {}"
  unfolding single_owner_def by blast

lemma owned_openD: "owned_open w \<Longrightarrow> objs w i = Some c \<Longrightarrow> owned_fds c \<subseteq> open_fds w"
  unfolding owned_open_def by blast

lemma inv_update:
  assumes "ownership_inv w"
    and other: "\<And>j cj. j \<noteq> i \<Longrightarrow> objs w j = Some cj \<Longrightarrow> owned_fds c' \<inter> owned_fds cj = {}"
    and sub: "owned_fds c' \<subseteq> open_fds w \<union> G"
  shows "ownership_inv (w\<lparr>objs := (objs w)(i \<mapsto> c'), open_fds := open_fds w \<union> G\<rparr>)"
proof -
  from assms(1) have so: "single_owner w" and oo: "owned_open w" by (simp_all add: ownership_inv_def)
  let ?w = "w\<lparr>objs := (objs w)(i \<mapsto> c'), open_fds := open_fds w \<union> G\<rparr>"
  have "single_owner ?w"
    unfolding single_owner_def
  proof (intro allI impI)
    fix a b ca cb
    assume ne: "a \<noteq> b" and a: "objs ?w a = Some ca" and b: "objs ?w b = Some cb"
    show "owned_fds ca \<inter> owned_fds cb = {}"
    proof (cases "a = i")
      case True
      with ne a b have "ca = c'" "b \<noteq> i" "objs w b = Some cb" by simp_all
      with other show ?thesis by simp
    next
      case False
      note ai = this
      show ?thesis
      proof (cases "b = i")
        case True
        with ai a b have "cb = c'" "objs w a = Some ca" by simp_all
        with other [OF ai] show ?thesis by blast
      next
        case False
        with ai a b have "objs w a = Some ca" "objs w b = Some cb" by simp_all
        with so ne show ?thesis by (rule single_ownerD)
      qed
    qed
  qed
  moreover have "owned_open ?w"
    unfolding owned_open_def
  proof (intro allI impI)
    fix a ca assume a: "objs ?w a = Some ca"
    show "owned_fds ca \<subseteq> open_fds ?w"
    proof (cases "a = i")
      case True
      with a sub show ?thesis by simp
    next
      case False
      with a have "objs w a = Some ca" by simp
      with oo have "owned_fds ca \<subseteq> open_fds w" by (rule owned_openD)
      then show ?thesis by auto
    qed
  qed
  ultimately show ?thesis by (simp add: ownership_inv_def)
qed

lemma owned_fds_ctor: "owned_fds (Command_ctor merged p a e ot er) = {}"
  by (simp add: owned_fds_def Command_ctor_def Let_def)

lemma owned_fds_move:
  "owned_fds (fst (Command_move c)) = owned_fds c" "owned_fds (snd (Command_move c)) = {}"
  by (auto simp: owned_fds_def Command_move_def)

lemma owned_fds_Execute: "owned_fds (snd (Execute os c)) \<subseteq> owned_fds c"
  by (auto simp: owned_fds_def Execute_def split: option.splits)

lemma owned_fds_Start:
  "owned_fds (snd (StartForkServer roles t pre h c)) \<subseteq> granted_fds h"
  by (cases h) (auto simp: owned_fds_def StartForkServer_def)

lemma closed_fds_dtor: "closed_fds (Command_dtor c) \<subseteq> owned_fds c"
  by (auto simp: Command_dtor_def owned_fds_def fork_server_active_def)

lemma inv_shrink:
  assumes "ownership_inv w" and "objs w i = Some c" and "owned_fds c' \<subseteq> owned_fds c"
  shows "ownership_inv (w\<lparr>objs := (objs w)(i \<mapsto> c')\<rparr>)"
proof -
  have "ownership_inv (w\<lparr>objs := (objs w)(i \<mapsto> c'), open_fds := open_fds w \<union> {}\<rparr>)"
  proof (rule inv_update [OF assms(1)])
    fix j cj assume "j \<noteq> i" "objs w j = Some cj"
    with assms(2) single_ownerD [of w i j c cj] assms(1) have "owned_fds c \<inter> owned_fds cj = {}"
      by (auto simp: ownership_inv_def)
    with assms(3) show "owned_fds c' \<inter> owned_fds cj = {}" by blast
  next
    from assms(1,2) have "owned_fds c \<subseteq> open_fds w" by (auto simp: ownership_inv_def dest: owned_openD)
    with assms(3) show "owned_fds c' \<subseteq> open_fds w \<union> {}" by blast
  qed
  then show ?thesis by simp
qed

lemma inv_destroy:
  assumes "ownership_inv w" and c: "objs w i = Some c" and F: "F \<subseteq> owned_fds c"
  shows "ownership_inv (w\<lparr>objs := (objs w)(i := None), open_fds := open_fds w - F, os_log := l\<rparr>)"
proof -
  from assms(1) have so: "single_owner w" and oo: "owned_open w" by (simp_all add: ownership_inv_def)
  let ?w = "w\<lparr>objs := (objs w)(i := None), open_fds := open_fds w - F, os_log := l\<rparr>"
  have "single_owner ?w"
    unfolding single_owner_def
  proof (intro allI impI)
    fix a b ca cb
    assume ne: "a \<noteq> b" and a: "objs ?w a = Some ca" and b: "objs ?w b = Some cb"
    then have "objs w a = Some ca" "objs w b = Some cb" by (simp_all split: if_splits)
    with so ne show "owned_fds ca \<inter> owned_fds cb = {}" by (rule single_ownerD)
  qed
  moreover have "owned_open ?w"
    unfolding owned_open_def
  proof (intro allI impI)
    fix a ca assume a: "objs ?w a = Some ca"
    then have ai: "a \<noteq> i" and a': "objs w a = Some ca" by (simp_all split: if_splits)
    from oo a' have "owned_fds ca \<subseteq> open_fds w" by (rule owned_openD)
    moreover from so ai a' c have "owned_fds ca \<inter> owned_fds c = {}" by (rule single_ownerD)
    ultimately have "owned_fds ca \<subseteq> open_fds w - F" using F by blast
    then show "owned_fds ca \<subseteq> open_fds ?w" by simp
  qed
  ultimately show ?thesis by (simp add: ownership_inv_def)
qed

lemma step_inv:
  assumes "ownership_inv w" and "step merged roles w x = Some w'"
  shows "ownership_inv w'"
proof (cases x)
  case (Construct i p a e ot er)
  with assms have w': "w' = w\<lparr>objs := (objs w)(i \<mapsto> Command_ctor merged p a e ot er), open_fds := open_fds w \<union> {}\<rparr>"
    by (auto split: if_splits)
  show ?thesis unfolding w'
    by (rule inv_update [OF assms(1)]) (simp_all add: owned_fds_ctor)
next
  case (Move_Construct src dst)
  with assms obtain other where src: "objs w src = Some other" and dst: "objs w dst = None"
    and w': "w' = w\<lparr>objs := (objs w)(dst \<mapsto> fst (Command_move other), src \<mapsto> snd (Command_move other))\<rparr>"
    by (auto split: option.splits if_splits prod.splits)
  from src dst have ne: "src \<noteq> dst" by auto
  let ?w1 = "w\<lparr>objs := (objs w)(src \<mapsto> snd (Command_move other))\<rparr>"
  have 1: "ownership_inv ?w1"
    by (rule inv_shrink [OF assms(1) src]) (simp add: owned_fds_move)
  have "ownership_inv (?w1\<lparr>objs := (objs ?w1)(dst \<mapsto> fst (Command_move other)), open_fds := open_fds ?w1 \<union> {}\<rparr>)"
  proof (rule inv_update [OF 1])
    fix j cj assume j: "j \<noteq> dst" "objs ?w1 j = Some cj"
    show "owned_fds (fst (Command_move other)) \<inter> owned_fds cj = {}"
    proof (cases "j = src")
      case True
      with j have "cj = snd (Command_move other)" by simp
      then show ?thesis by (simp add: owned_fds_move)
    next
      case False
      with j have cj: "objs w j = Some cj" by simp
      from assms(1) have "single_owner w" by (simp add: ownership_inv_def)
      with False src cj have "owned_fds other \<inter> owned_fds cj = {}"
        using single_ownerD [of w src j other cj] by auto
      then show ?thesis by (simp add: owned_fds_move)
    qed
  next
    from assms(1) src have "owned_fds other \<subseteq> open_fds w" by (auto simp: ownership_inv_def dest: owned_openD)
    then show "owned_fds (fst (Command_move other)) \<subseteq> open_fds ?w1 \<union> {}"
      by (simp add: owned_fds_move)
  qed
  moreover have "(objs w)(src \<mapsto> snd (Command_move other), dst \<mapsto> fst (Command_move other)) =
      (objs w)(dst \<mapsto> fst (Command_move other), src \<mapsto> snd (Command_move other))"
    using ne by (auto simp: fun_eq_iff)
  ultimately show ?thesis unfolding w' by simp
next
  case (Destroy i)
  with assms obtain c where c: "objs w i = Some c"
    and w': "w' = w\<lparr>objs := (objs w)(i := None), open_fds := open_fds w - closed_fds (Command_dtor c), os_log := os_log w @ Command_dtor c\<rparr>"
    by (auto split: option.splits)
  show ?thesis unfolding w' by (rule inv_destroy [OF assms(1) c closed_fds_dtor])
next
  case (Start_Fork_Server i t pre h)
  with assms obtain c where c: "objs w i = Some c" and g: "os_grants w h"
    and w': "w' = w\<lparr>objs := (objs w)(i \<mapsto> snd (StartForkServer roles t pre h c)), open_fds := open_fds w \<union> granted_fds h\<rparr>"
    by (auto split: option.splits if_splits)
  from g have fresh: "granted_fds h \<inter> open_fds w = {}" by (cases h) auto
  show ?thesis unfolding w'
  proof (rule inv_update [OF assms(1)])
    fix j cj assume "j \<noteq> i" "objs w j = Some cj"
    with assms(1) have "owned_fds cj \<subseteq> open_fds w" by (auto simp: ownership_inv_def dest: owned_openD)
    with fresh owned_fds_Start [of roles t pre h c]
    show "owned_fds (snd (StartForkServer roles t pre h c)) \<inter> owned_fds cj = {}" by blast
  next
    from owned_fds_Start [of roles t pre h c]
    show "owned_fds (snd (StartForkServer roles t pre h c)) \<subseteq> open_fds w \<union> granted_fds h" by blast
  qed
next
  case (Exec i os)
  with assms obtain c where c: "objs w i = Some c"
    and w': "w' = w\<lparr>objs := (objs w)(i \<mapsto> snd (Execute os c))\<rparr>"
    by (auto split: option.splits)
  show ?thesis unfolding w' by (rule inv_shrink [OF assms(1) c owned_fds_Execute])
next
  case (To_String i)
  with assms show ?thesis by (auto split: option.splits)
qed

lemma run_inv: "ownership_inv w \<Longrightarrow> run merged roles w xs = Some w' \<Longrightarrow> ownership_inv w'"
  by (induction xs arbitrary: w) (auto split: option.splits dest: step_inv)


section \<open>Construction performs no validation\<close>

text \<open>
  C2 (as amended). The constructor performs no validation: for every path, args, env,
  out and err, whether or not the env entries have the \<^verbatim>\<open>KEY=VALUE\<close> form,
  construction succeeds and the new object holds the five inputs exactly as given.
\<close>

theorem constructor_accepts_every_input:
  "construct merged p a e ot er = Some (Command_ctor merged p a e ot er)
   \<and> path (Command_ctor merged p a e ot er) = p
   \<and> args (Command_ctor merged p a e ot er) = a
   \<and> env (Command_ctor merged p a e ot er) = e
   \<and> out (Command_ctor merged p a e ot er) = ot
   \<and> err (Command_ctor merged p a e ot er) = er"
  by (simp add: construct_def Command_ctor_def Let_def)

text \<open>
  The claim as stated fails: the entry \<^verbatim>\<open>MALFORMED\<close> has no \<^verbatim>\<open>=\<close>, and the
  constructor accepts it and stores it unchanged.
\<close>

theorem constructor_validation_counterexample:
  "\<not> key_value_form ''MALFORMED''
   \<and> construct id ''/bin/true'' [] [''MALFORMED''] [] [] \<noteq> None
   \<and> map_option env (construct id ''/bin/true'' [] [''MALFORMED''] [] []) = Some [''MALFORMED'']"
  by (simp add: key_value_form_def construct_def Command_ctor_def Let_def)

section \<open>Move construction transfers the pipes\<close>

lemma move_facts:
  "pipe (fst (Command_move a)) = pipe a"
  "fifo_path (fst (Command_move a)) = fifo_path a"
  "pipe (snd (Command_move a)) = (-1, -1)"
  "Command_dtor (snd (Command_move a)) = []"
  "Command_dtor (fst (Command_move a)) = Command_dtor a"
  by (simp_all add: Command_move_def Command_dtor_def fork_server_active_def)

lemma start_world_inv: "objs w = Map.empty \<Longrightarrow> ownership_inv w"
  by (simp add: ownership_inv_def single_owner_def owned_open_def)

lemma active_owned: "fork_server_active c \<Longrightarrow> owned_fds c = {fst (pipe c), snd (pipe c)}"
  by (auto simp: fork_server_active_def owned_fds_def)

lemma dtor_active:
  "fork_server_active c \<Longrightarrow>
     Command_dtor c = [Stop_Fork_Server, Close_Fd (fst (pipe c)), Close_Fd (snd (pipe c)),
                       Remove_File (fst (fifo_path c)), Remove_File (snd (fifo_path c))]"
  by (simp add: Command_dtor_def)

lemma move_then_destroy:
  assumes a: "objs w0 src = Some a" and act: "fork_server_active a"
    and m: "step merged roles w0 (Move_Construct src dst) = Some w1"
  shows "\<exists>w2 w3. step merged roles w1 (Destroy src) = Some w2 \<and>
           os_log w2 = os_log w0 \<and> open_fds w2 = open_fds w0 \<and>
           step merged roles w2 (Destroy dst) = Some w3 \<and>
           os_log w3 = os_log w0 @
             [Stop_Fork_Server, Close_Fd (fst (pipe a)), Close_Fd (snd (pipe a)),
              Remove_File (fst (fifo_path a)), Remove_File (snd (fifo_path a))] \<and>
           open_fds w3 = open_fds w0 - {fst (pipe a), snd (pipe a)}"
proof -
  from a m have dst: "objs w0 dst = None"
    and w1: "w1 = w0\<lparr>objs := (objs w0)(dst \<mapsto> fst (Command_move a), src \<mapsto> snd (Command_move a))\<rparr>"
    by (auto split: if_splits prod.splits)
  from a dst have ne: "src \<noteq> dst" by auto
  let ?w2 = "w1\<lparr>objs := (objs w1)(src := None),
               open_fds := open_fds w1 - closed_fds (Command_dtor (snd (Command_move a))),
               os_log := os_log w1 @ Command_dtor (snd (Command_move a))\<rparr>"
  have s2: "step merged roles w1 (Destroy src) = Some ?w2" by (simp add: w1)
  have l2: "os_log ?w2 = os_log w0" "open_fds ?w2 = open_fds w0"
    by (simp_all add: w1 move_facts)
  have b: "objs ?w2 dst = Some (fst (Command_move a))" using ne by (simp add: w1)
  let ?b = "fst (Command_move a)"
  let ?w3 = "?w2\<lparr>objs := (objs ?w2)(dst := None),
               open_fds := open_fds ?w2 - closed_fds (Command_dtor ?b),
               os_log := os_log ?w2 @ Command_dtor ?b\<rparr>"
  have s3: "step merged roles ?w2 (Destroy dst) = Some ?w3" using b by simp
  have d: "Command_dtor ?b = [Stop_Fork_Server, Close_Fd (fst (pipe a)), Close_Fd (snd (pipe a)),
              Remove_File (fst (fifo_path a)), Remove_File (snd (fifo_path a))]"
    using dtor_active [OF act] by (simp add: move_facts)
  have l3: "os_log ?w3 = os_log w0 @
             [Stop_Fork_Server, Close_Fd (fst (pipe a)), Close_Fd (snd (pipe a)),
              Remove_File (fst (fifo_path a)), Remove_File (snd (fifo_path a))]"
    "open_fds ?w3 = open_fds w0 - {fst (pipe a), snd (pipe a)}"
    using l2 by (simp_all add: d)
  from s2 l2 s3 l3 show ?thesis by blast
qed


text \<open>
  C3. \<^verbatim>\<open>Command\<close> is move-only: \<open>op\<close> has no copy and no assignment, as
  command.h deletes them. After \<^verbatim>\<open>Command b = std::move(a)\<close>, \<open>b\<close> holds the pipe
  descriptors and fifo paths \<open>a\<close> had, and both descriptors of \<open>a\<close> are \<open>-1\<close>.
  Destroying \<open>a\<close> then asks nothing of the operating system. If \<open>a\<close> had an active
  fork server, destroying \<open>b\<close> performs the cleanup: it stops the fork server, closes
  the two descriptors \<open>a\<close> had and removes the two fifo files \<open>a\<close> had. In the
  world of live instances: after the move, destroying the source changes neither the
  open descriptors nor the log of requests to the operating system, and destroying the
  target afterwards appends exactly that cleanup to the log and closes exactly those
  two descriptors. In every world reached from one without commands, by any sequence
  of operations, an instance with an active fork server shares its descriptor pair, and
  each descriptor of it, with no other live instance.
\<close>

theorem move_transfers_pipe_ownership:
  "pipe (fst (Command_move a)) = pipe a
   \<and> fifo_path (fst (Command_move a)) = fifo_path a
   \<and> pipe (snd (Command_move a)) = (-1, -1)
   \<and> Command_dtor (snd (Command_move a)) = []
   \<and> Command_dtor (fst (Command_move a)) = Command_dtor a
   \<and> (fork_server_active a \<longrightarrow>
        Command_dtor (fst (Command_move a)) =
          [Stop_Fork_Server, Close_Fd (fst (pipe a)), Close_Fd (snd (pipe a)),
           Remove_File (fst (fifo_path a)), Remove_File (snd (fifo_path a))])
   \<and> (objs w0 src = Some a \<longrightarrow> fork_server_active a \<longrightarrow>
        step merged roles w0 (Move_Construct src dst) = Some w1 \<longrightarrow>
        (\<exists>w2 w3. step merged roles w1 (Destroy src) = Some w2 \<and>
           os_log w2 = os_log w0 \<and> open_fds w2 = open_fds w0 \<and>
           step merged roles w2 (Destroy dst) = Some w3 \<and>
           os_log w3 = os_log w0 @
             [Stop_Fork_Server, Close_Fd (fst (pipe a)), Close_Fd (snd (pipe a)),
              Remove_File (fst (fifo_path a)), Remove_File (snd (fifo_path a))] \<and>
           open_fds w3 = open_fds w0 - {fst (pipe a), snd (pipe a)}))
   \<and> (objs w = Map.empty \<longrightarrow> run merged roles w ops = Some w' \<longrightarrow>
        (\<forall>i j ci cj. i \<noteq> j \<longrightarrow> objs w' i = Some ci \<longrightarrow> objs w' j = Some cj \<longrightarrow>
           fork_server_active ci \<longrightarrow>
           pipe cj \<noteq> pipe ci \<and> owned_fds ci \<inter> owned_fds cj = {}))"
proof -
  have inv: "\<forall>i j ci cj. i \<noteq> j \<longrightarrow> objs w' i = Some ci \<longrightarrow> objs w' j = Some cj \<longrightarrow>
           fork_server_active ci \<longrightarrow>
           pipe cj \<noteq> pipe ci \<and> owned_fds ci \<inter> owned_fds cj = {}"
    if e: "objs w = Map.empty" and r: "run merged roles w ops = Some w'"
  proof (intro allI impI)
    fix i j ci cj
    assume ne: "i \<noteq> j" and i: "objs w' i = Some ci" and j: "objs w' j = Some cj"
      and act: "fork_server_active ci"
    from run_inv [OF start_world_inv [OF e] r] have "single_owner w'"
      by (simp add: ownership_inv_def)
    from single_ownerD [OF this ne i j] have d: "owned_fds ci \<inter> owned_fds cj = {}" .
    have "pipe cj \<noteq> pipe ci"
    proof
      assume "pipe cj = pipe ci"
      then have "owned_fds cj = owned_fds ci" by (simp add: owned_fds_def)
      with d act show False by (simp add: active_owned)
    qed
    with d show "pipe cj \<noteq> pipe ci \<and> owned_fds ci \<inter> owned_fds cj = {}" by simp
  qed
  have cleanup: "Command_dtor (fst (Command_move a)) =
          [Stop_Fork_Server, Close_Fd (fst (pipe a)), Close_Fd (snd (pipe a)),
           Remove_File (fst (fifo_path a)), Remove_File (snd (fifo_path a))]"
    if "fork_server_active a"
    using dtor_active [OF that] by (simp add: move_facts)
  from inv cleanup move_then_destroy [of w0 src a merged roles dst w1] show ?thesis
    by (simp add: move_facts)
qed

theorem move_transfers_pipe_ownership_witness:
  "(\<exists>w0 a w1 w2 w3.
      run id (''_request'', ''_response'') start_world
        [Construct 0 ''/bin/target'' [] [] [] [],
         Start_Fork_Server 0 ''/tmp'' ''fs'' (Established 3 4)] = Some w0 \<and>
      objs w0 0 = Some a \<and> fork_server_active a \<and>
      step id (''_request'', ''_response'') w0 (Move_Construct 0 1) = Some w1 \<and>
      step id (''_request'', ''_response'') w1 (Destroy 0) = Some w2 \<and>
      os_log w2 = [] \<and> open_fds w2 = {0, 1, 2, 3, 4} \<and>
      step id (''_request'', ''_response'') w2 (Destroy 1) = Some w3 \<and>
      os_log w3 = [Stop_Fork_Server, Close_Fd 3, Close_Fd 4,
                   Remove_File ''/tmp/fs_request'', Remove_File ''/tmp/fs_response''] \<and>
      open_fds w3 = {0, 1, 2})
   \<and> objs start_world = Map.empty \<and>
   (\<exists>w' ci cj. run id (''_request'', ''_response'') start_world
        [Construct 0 ''/bin/target'' [] [] [] [],
         Start_Fork_Server 0 ''/tmp'' ''fs'' (Established 3 4),
         Move_Construct 0 1,
         Construct 2 ''/bin/other'' [] [] [] [],
         Start_Fork_Server 2 ''/tmp'' ''fs2'' (Established 5 6)] = Some w' \<and>
      (1::nat) \<noteq> 2 \<and> objs w' 1 = Some ci \<and> objs w' 2 = Some cj \<and> fork_server_active ci \<and>
      pipe ci = (3, 4) \<and> pipe cj = (5, 6) \<and>
      pipe cj \<noteq> pipe ci \<and> owned_fds ci \<inter> owned_fds cj = {})"
proof -
  let ?r = "(''_request'', ''_response'')"
  let ?pre = "[Construct 0 ''/bin/target'' [] [] [] [],
         Start_Fork_Server 0 ''/tmp'' ''fs'' (Established 3 4)]"
  let ?ops = "[Construct 0 ''/bin/target'' [] [] [] [],
         Start_Fork_Server 0 ''/tmp'' ''fs'' (Established 3 4),
         Move_Construct 0 1,
         Construct 2 ''/bin/other'' [] [] [] [],
         Start_Fork_Server 2 ''/tmp'' ''fs2'' (Established 5 6)]"
  have "\<exists>w0 a w1. run id ?r start_world ?pre = Some w0 \<and> objs w0 0 = Some a \<and>
      fork_server_active a \<and> pipe a = (3, 4) \<and>
      fifo_path a = (''/tmp/fs_request'', ''/tmp/fs_response'') \<and>
      os_log w0 = [] \<and> open_fds w0 = {0, 1, 2, 3, 4} \<and>
      step id ?r w0 (Move_Construct 0 1) = Some w1"
    by (simp add: start_world_def Command_ctor_def Let_def StartForkServer_def fifo_name_def
        Command_move_def fork_server_active_def insert_commute)
  then obtain w0 a w1 where p: "run id ?r start_world ?pre = Some w0" "objs w0 0 = Some a"
      "fork_server_active a"
    and v: "pipe a = (3, 4)" "fifo_path a = (''/tmp/fs_request'', ''/tmp/fs_response'')"
      "os_log w0 = []" "open_fds w0 = {0, 1, 2, 3, 4}"
    and m: "step id ?r w0 (Move_Construct 0 1) = Some w1"
    by blast
  note inst = move_transfers_pipe_ownership [of a w0 0 id ?r 1 w1]
  from inst p(2,3) m
  obtain w2 w3 where d: "step id ?r w1 (Destroy 0) = Some w2"
      "os_log w2 = os_log w0" "open_fds w2 = open_fds w0"
      "step id ?r w2 (Destroy 1) = Some w3"
      "os_log w3 = os_log w0 @
             [Stop_Fork_Server, Close_Fd (fst (pipe a)), Close_Fd (snd (pipe a)),
              Remove_File (fst (fifo_path a)), Remove_File (snd (fifo_path a))]"
      "open_fds w3 = open_fds w0 - {fst (pipe a), snd (pipe a)}"
    by blast
  have l2: "os_log w2 = []" "open_fds w2 = {0, 1, 2, 3, 4}" by (simp_all add: d v)
  have l3: "os_log w3 = [Stop_Fork_Server, Close_Fd 3, Close_Fd 4,
                   Remove_File ''/tmp/fs_request'', Remove_File ''/tmp/fs_response'']"
    by (simp add: d v)
  have o3: "open_fds w3 = {0, 1, 2}" unfolding d(6) v by auto
  from p m d(1,4) l2 l3 o3 have first: "\<exists>w0 a w1 w2 w3.
      run id ?r start_world ?pre = Some w0 \<and>
      objs w0 0 = Some a \<and> fork_server_active a \<and>
      step id ?r w0 (Move_Construct 0 1) = Some w1 \<and>
      step id ?r w1 (Destroy 0) = Some w2 \<and>
      os_log w2 = [] \<and> open_fds w2 = {0, 1, 2, 3, 4} \<and>
      step id ?r w2 (Destroy 1) = Some w3 \<and>
      os_log w3 = [Stop_Fork_Server, Close_Fd 3, Close_Fd 4,
                   Remove_File ''/tmp/fs_request'', Remove_File ''/tmp/fs_response''] \<and>
      open_fds w3 = {0, 1, 2}"
    by blast
  have e: "objs start_world = Map.empty" by (simp add: start_world_def)
  have "\<exists>w' ci cj. run id ?r start_world ?ops = Some w' \<and>
      objs w' 1 = Some ci \<and> objs w' 2 = Some cj \<and> fork_server_active ci \<and>
      pipe ci = (3, 4) \<and> pipe cj = (5, 6)"
    by (simp add: start_world_def Command_ctor_def Let_def StartForkServer_def
        Command_move_def fork_server_active_def)
  then obtain w' ci cj where r: "run id ?r start_world ?ops = Some w'"
    and o: "objs w' 1 = Some ci" "objs w' 2 = Some cj" "fork_server_active ci"
      "pipe ci = (3, 4)" "pipe cj = (5, 6)"
    by blast
  have ne: "(1::nat) \<noteq> 2" by simp
  from move_transfers_pipe_ownership [of a w0 0 id ?r 1 w1 start_world ?ops w'] e r
  have "\<forall>i j ci cj. i \<noteq> j \<longrightarrow> objs w' i = Some ci \<longrightarrow> objs w' j = Some cj \<longrightarrow>
           fork_server_active ci \<longrightarrow>
           pipe cj \<noteq> pipe ci \<and> owned_fds ci \<inter> owned_fds cj = {}"
    by blast
  with ne o have "pipe cj \<noteq> pipe ci \<and> owned_fds ci \<inter> owned_fds cj = {}" by blast
  with e r o ne have second: "objs start_world = Map.empty \<and>
   (\<exists>w' ci cj. run id ?r start_world ?ops = Some w' \<and>
      (1::nat) \<noteq> 2 \<and> objs w' 1 = Some ci \<and> objs w' 2 = Some cj \<and> fork_server_active ci \<and>
      pipe ci = (3, 4) \<and> pipe cj = (5, 6) \<and>
      pipe cj \<noteq> pipe ci \<and> owned_fds ci \<inter> owned_fds cj = {})"
    by blast
  from first second show ?thesis by (rule conjI)
qed


section \<open>What the operations leave unchanged\<close>

lemma Execute_inactive: "\<not> fork_server_active c \<Longrightarrow> Execute os c = (direct_exec os (path c) (args c) (env c) (out c) (err c), c)"
  by (simp add: Execute_def)

lemma Execute_frame:
  "path (snd (Execute os c)) = path c" "args (snd (Execute os c)) = args c"
  "env (snd (Execute os c)) = env c" "out (snd (Execute os c)) = out c"
  "err (snd (Execute os c)) = err c"
  "full_command_string (snd (Execute os c)) = full_command_string c"
  by (simp_all add: Execute_def split: option.splits)

lemma StartForkServer_frame:
  "path (snd (StartForkServer roles t pre h c)) = path c"
  "args (snd (StartForkServer roles t pre h c)) = args c"
  "env (snd (StartForkServer roles t pre h c)) = env c"
  "out (snd (StartForkServer roles t pre h c)) = out c"
  "err (snd (StartForkServer roles t pre h c)) = err c"
  "full_command_string (snd (StartForkServer roles t pre h c)) = full_command_string c"
  by (simp_all add: StartForkServer_def split: handshake.splits)

lemma Command_move_frame:
  "path (snd (Command_move c)) = path c" "args (snd (Command_move c)) = args c"
  "env (snd (Command_move c)) = env c" "out (snd (Command_move c)) = out c"
  "err (snd (Command_move c)) = err c"
  "path (fst (Command_move c)) = path c" "args (fst (Command_move c)) = args c"
  "env (fst (Command_move c)) = env c" "out (fst (Command_move c)) = out c"
  "err (fst (Command_move c)) = err c"
  "full_command_string (fst (Command_move c)) = full_command_string c"
  "full_command_string (snd (Command_move c)) = []"
  by (simp_all add: Command_move_def)

lemma step_live:
  assumes "step merged roles w x = Some w'" and "objs w i = Some c" and "x \<noteq> Destroy i"
  shows "\<exists>c'. objs w' i = Some c' \<and> inputs c' = inputs c
           \<and> (\<not> is_move_from i x \<longrightarrow> full_command_string c' = full_command_string c)
           \<and> (\<not> is_start_on i x \<longrightarrow> pipe c = (-1, -1) \<longrightarrow> pipe c' = (-1, -1))"
proof (cases x)
  case (Construct j p a e ot er)
  with assms show ?thesis by (auto split: if_splits)
next
  case (Move_Construct src dst)
  with assms show ?thesis
    by (auto simp: inputs_def Command_move_def split: option.splits if_splits)
next
  case (Destroy j)
  with assms show ?thesis by (auto split: option.splits)
next
  case (Start_Fork_Server j t pre h)
  with assms show ?thesis
    by (auto simp: inputs_def StartForkServer_frame split: option.splits if_splits)
next
  case (Exec j os)
  with assms show ?thesis
    by (auto simp: inputs_def Execute_frame Execute_def fork_server_active_def split: option.splits)
next
  case (To_String j)
  with assms show ?thesis by (auto split: option.splits)
qed


lemma run_live:
  assumes "run merged roles w ops = Some w'" and "objs w i = Some c" and "Destroy i \<notin> set ops"
  shows "\<exists>c'. objs w' i = Some c' \<and> inputs c' = inputs c
           \<and> ((\<forall>x\<in>set ops. \<not> is_move_from i x) \<longrightarrow> full_command_string c' = full_command_string c)
           \<and> ((\<forall>x\<in>set ops. \<not> is_start_on i x) \<longrightarrow> pipe c = (-1, -1) \<longrightarrow> pipe c' = (-1, -1))"
  using assms
proof (induction ops arbitrary: w c)
  case Nil
  then show ?case by simp
next
  case (Cons x xs)
  from Cons.prems(1) obtain w1 where s: "step merged roles w x = Some w1"
    and r: "run merged roles w1 xs = Some w'"
    by (auto split: option.splits)
  from Cons.prems(3) have nd: "x \<noteq> Destroy i" "Destroy i \<notin> set xs" by auto
  from step_live [OF s Cons.prems(2) nd(1)] obtain c1 where c1: "objs w1 i = Some c1"
    "inputs c1 = inputs c"
    "\<not> is_move_from i x \<longrightarrow> full_command_string c1 = full_command_string c"
    "\<not> is_start_on i x \<longrightarrow> pipe c = (-1, -1) \<longrightarrow> pipe c1 = (-1, -1)"
    by blast
  from Cons.IH [OF r c1(1) nd(2)] obtain c' where c': "objs w' i = Some c'"
    "inputs c' = inputs c1"
    "(\<forall>x\<in>set xs. \<not> is_move_from i x) \<longrightarrow> full_command_string c' = full_command_string c1"
    "(\<forall>x\<in>set xs. \<not> is_start_on i x) \<longrightarrow> pipe c1 = (-1, -1) \<longrightarrow> pipe c' = (-1, -1)"
    by blast
  from c1 c' show ?case by simp
qed

lemma dtor_inactive: "pipe c = (-1, -1) \<Longrightarrow> Command_dtor c = []"
  by (simp add: Command_dtor_def fork_server_active_def)

lemma ctor_pipe: "pipe (Command_ctor merged p a e ot er) = (-1, -1)"
  by (simp add: Command_ctor_def Let_def)

text \<open>
  C9. A freshly constructed command has both descriptors equal to \<open>-1\<close>, and
  destroying it asks nothing of the operating system. The same holds for as long as
  \<^verbatim>\<open>StartForkServer\<close> is not called on it, whatever else happens to it (execution,
  rendering, being moved from) and whatever happens to other instances: it is still
  live with both descriptors \<open>-1\<close>, and destroying it closes no descriptor and
  removes no file.
\<close>

theorem fresh_command_owns_no_pipes:
  "pipe (Command_ctor merged p a e ot er) = (-1, -1)
   \<and> Command_dtor (Command_ctor merged p a e ot er) = []
   \<and> (step merged roles w (Construct i p a e ot er) = Some w1 \<longrightarrow>
        run merged roles w1 ops = Some w2 \<longrightarrow>
        Destroy i \<notin> set ops \<longrightarrow> (\<forall>x\<in>set ops. \<not> is_start_on i x) \<longrightarrow>
        (\<exists>c w3. objs w2 i = Some c \<and> pipe c = (-1, -1) \<and> Command_dtor c = [] \<and>
           step merged roles w2 (Destroy i) = Some w3 \<and>
           open_fds w3 = open_fds w2 \<and> os_log w3 = os_log w2))"
proof -
  have "\<exists>c w3. objs w2 i = Some c \<and> pipe c = (-1, -1) \<and> Command_dtor c = [] \<and>
           step merged roles w2 (Destroy i) = Some w3 \<and>
           open_fds w3 = open_fds w2 \<and> os_log w3 = os_log w2"
    if s: "step merged roles w (Construct i p a e ot er) = Some w1"
      and r: "run merged roles w1 ops = Some w2"
      and nd: "Destroy i \<notin> set ops" and ns: "\<forall>x\<in>set ops. \<not> is_start_on i x"
  proof -
    from s have "objs w1 i = Some (Command_ctor merged p a e ot er)"
      by (auto split: if_splits)
    from run_live [OF r this nd] ns obtain c where c: "objs w2 i = Some c" "pipe c = (-1, -1)"
      by (auto simp: ctor_pipe)
    from c(2) have d: "Command_dtor c = []" by (rule dtor_inactive)
    with c show ?thesis by simp
  qed
  then show ?thesis by (simp add: ctor_pipe dtor_inactive)
qed

theorem fresh_command_owns_no_pipes_witness:
  "\<exists>w1 w2. step id (''_request'', ''_response'') start_world
        (Construct 0 ''/bin/target'' [''x''] [''A=1''] [] []) = Some w1 \<and>
      run id (''_request'', ''_response'') w1
        [Exec 0 \<lparr>direct_exec = (\<lambda>p a e ot er. 0), fork_server_exec = (\<lambda>rq rs. Some 0), failure_status = - 1\<rparr>,
         Construct 1 ''/bin/other'' [] [] [] [],
         Start_Fork_Server 1 ''/tmp'' ''fs'' (Established 3 4),
         Move_Construct 0 2,
         To_String 0] = Some w2 \<and>
      (\<exists>c w3. objs w2 0 = Some c \<and> pipe c = (-1, -1) \<and> Command_dtor c = [] \<and>
         step id (''_request'', ''_response'') w2 (Destroy 0) = Some w3 \<and>
         open_fds w3 = open_fds w2 \<and> os_log w3 = os_log w2)"
proof -
  let ?r = "(''_request'', ''_response'')"
  let ?ops = "[Exec 0 \<lparr>direct_exec = (\<lambda>p a e ot er. 0), fork_server_exec = (\<lambda>rq rs. Some 0), failure_status = - 1\<rparr>,
         Construct 1 ''/bin/other'' [] [] [] [],
         Start_Fork_Server 1 ''/tmp'' ''fs'' (Established 3 4),
         Move_Construct 0 2,
         To_String 0]"
  have "\<exists>w1 w2. step id ?r start_world (Construct 0 ''/bin/target'' [''x''] [''A=1''] [] []) = Some w1 \<and>
      run id ?r w1 ?ops = Some w2"
    by (simp add: start_world_def Command_ctor_def Let_def StartForkServer_def
        Command_move_def Execute_def fork_server_active_def)
  then obtain w1 w2 where s: "step id ?r start_world (Construct 0 ''/bin/target'' [''x''] [''A=1''] [] []) = Some w1"
    and r: "run id ?r w1 ?ops = Some w2"
    by blast
  have nd: "Destroy 0 \<notin> set ?ops" by simp
  have ns: "\<forall>x\<in>set ?ops. \<not> is_start_on 0 x" by simp
  from fresh_command_owns_no_pipes [of id "''/bin/target''" "[''x'']" "[''A=1'']" "[]" "[]" ?r start_world 0 w1 ?ops w2]
    s r nd ns
  have "\<exists>c w3. objs w2 0 = Some c \<and> pipe c = (-1, -1) \<and> Command_dtor c = [] \<and>
         step id ?r w2 (Destroy 0) = Some w3 \<and>
         open_fds w3 = open_fds w2 \<and> os_log w3 = os_log w2"
    by blast
  with s r show ?thesis by blast
qed

text \<open>
  C10 (as amended). For a live instance and any sequence of operations that does not
  destroy it: it stays live, its path, args, env, out and err are unchanged, and so is
  what \<open>ToString\<close> returns for it. The cached \<^verbatim>\<open>full_command_string_\<close> is unchanged
  too unless the instance is moved from: the move constructor moves the cached string
  out of its source and leaves it empty there.
\<close>

theorem command_fields_fixed:
  "(objs w i = Some c \<longrightarrow> run merged roles w ops = Some w' \<longrightarrow> Destroy i \<notin> set ops \<longrightarrow>
      (\<exists>c'. objs w' i = Some c' \<and> path c' = path c \<and> args c' = args c \<and> env c' = env c \<and>
         out c' = out c \<and> err c' = err c \<and> ToString merged c' = ToString merged c \<and>
         ((\<forall>x\<in>set ops. \<not> is_move_from i x) \<longrightarrow> full_command_string c' = full_command_string c)))
   \<and> full_command_string (snd (Command_move c)) = []"
proof -
  have "\<exists>c'. objs w' i = Some c' \<and> path c' = path c \<and> args c' = args c \<and> env c' = env c \<and>
         out c' = out c \<and> err c' = err c \<and> ToString merged c' = ToString merged c \<and>
         ((\<forall>x\<in>set ops. \<not> is_move_from i x) \<longrightarrow> full_command_string c' = full_command_string c)"
    if l: "objs w i = Some c" and r: "run merged roles w ops = Some w'" and nd: "Destroy i \<notin> set ops"
  proof -
    from run_live [OF r l nd] obtain c' where c': "objs w' i = Some c'" "inputs c' = inputs c"
      "(\<forall>x\<in>set ops. \<not> is_move_from i x) \<longrightarrow> full_command_string c' = full_command_string c"
      by blast
    from c'(2) have "path c' = path c" "args c' = args c" "env c' = env c" "out c' = out c" "err c' = err c"
      by (simp_all add: inputs_def)
    moreover from this have "ToString merged c' = ToString merged c" by (simp add: ToString_def)
    ultimately show ?thesis using c'(1,3) by simp
  qed
  then show ?thesis by (simp add: Command_move_frame)
qed

theorem command_fields_fixed_witness:
  "\<exists>w'. run id (''_request'', ''_response'')
        (start_world\<lparr>objs := [0 \<mapsto> Command_ctor id ''/bin/target'' [''x''] [''A=1''] ''o'' ''e'']\<rparr>)
        [Start_Fork_Server 0 ''/tmp'' ''fs'' (Established 3 4),
         Exec 0 \<lparr>direct_exec = (\<lambda>p a e ot er. 0), fork_server_exec = (\<lambda>rq rs. None), failure_status = - 1\<rparr>,
         To_String 0,
         Construct 1 ''/bin/other'' [] [] [] [],
         Destroy 1] = Some w' \<and>
      (\<exists>c'. objs w' 0 = Some c' \<and> path c' = ''/bin/target'' \<and> args c' = [''x''] \<and>
         env c' = [''A=1''] \<and> out c' = ''o'' \<and> err c' = ''e'' \<and>
         ToString id c' = ''A=1 /bin/target x > o 2>& e'' \<and>
         full_command_string c' = ''A=1 /bin/target x > o 2>& e'')"
proof -
  let ?r = "(''_request'', ''_response'')"
  let ?c = "Command_ctor id ''/bin/target'' [''x''] [''A=1''] ''o'' ''e''"
  let ?w = "start_world\<lparr>objs := [0 \<mapsto> ?c]\<rparr>"
  let ?ops = "[Start_Fork_Server 0 ''/tmp'' ''fs'' (Established 3 4),
         Exec 0 \<lparr>direct_exec = (\<lambda>p a e ot er. 0), fork_server_exec = (\<lambda>rq rs. None), failure_status = - 1\<rparr>,
         To_String 0,
         Construct 1 ''/bin/other'' [] [] [] [],
         Destroy 1]"
  have "\<exists>w'. run id ?r ?w ?ops = Some w'"
    by (simp add: start_world_def Command_ctor_def Let_def StartForkServer_def
        Execute_def fork_server_active_def)
  then obtain w' where r: "run id ?r ?w ?ops = Some w'" by blast
  have l: "objs ?w 0 = Some ?c" by simp
  have nd: "Destroy 0 \<notin> set ?ops" by simp
  have nm: "\<forall>x\<in>set ?ops. \<not> is_move_from 0 x" by simp
  have v: "path ?c = ''/bin/target''" "args ?c = [''x'']" "env ?c = [''A=1'']" "out ?c = ''o''"
    "err ?c = ''e''" "ToString id ?c = ''A=1 /bin/target x > o 2>& e''"
    "full_command_string ?c = ''A=1 /bin/target x > o 2>& e''"
    by (simp_all add: Command_ctor_def Let_def ToString_def redirections_def)
  from command_fields_fixed [of ?w 0 ?c id ?r ?ops w'] l r nd nm
  have "\<exists>c'. objs w' 0 = Some c' \<and> path c' = path ?c \<and> args c' = args ?c \<and> env c' = env ?c \<and>
         out c' = out ?c \<and> err c' = err ?c \<and> ToString id c' = ToString id ?c \<and>
         full_command_string c' = full_command_string ?c"
    by blast
  then have "\<exists>c'. objs w' 0 = Some c' \<and> path c' = ''/bin/target'' \<and> args c' = [''x''] \<and>
         env c' = [''A=1''] \<and> out c' = ''o'' \<and> err c' = ''e'' \<and>
         ToString id c' = ''A=1 /bin/target x > o 2>& e'' \<and>
         full_command_string c' = ''A=1 /bin/target x > o 2>& e''"
    by (simp only: v)
  with r show ?thesis by blast
qed

text \<open>
  The claim as stated fails: after \<^verbatim>\<open>Command b = std::move(a)\<close> the instance
  \<open>a\<close> is still live, and its cached string, \<^verbatim>\<open>/bin/true\<close> before the move, is
  empty.
\<close>

theorem cached_string_counterexample:
  "map_option full_command_string
     (objs (the (run id (''_request'', ''_response'') start_world
        [Construct 0 ''/bin/true'' [] [] [] []])) 0) = Some ''/bin/true''
   \<and> map_option full_command_string
     (objs (the (run id (''_request'', ''_response'') start_world
        [Construct 0 ''/bin/true'' [] [] [] [], Move_Construct 0 1])) 0) = Some []"
  by (simp add: start_world_def Command_ctor_def Let_def Command_move_def ToString_def redirections_def)

section \<open>A failed fork-server start\<close>

lemma Execute_all_inactive:
  "\<not> fork_server_active c \<Longrightarrow>
     Execute_all oss c = (map (\<lambda>os. direct_exec os (path c) (args c) (env c) (out c) (err c)) oss, c)"
  by (induction oss) (simp_all add: Execute_inactive)

lemma StartForkServer_result:
  "fst (StartForkServer roles t pre h c) \<longleftrightarrow> (\<exists>rq rs. h = Established rq rs)"
  by (cases h) (simp_all add: StartForkServer_def)

lemma StartForkServer_failed:
  "\<not> fst (StartForkServer roles t pre h c) \<Longrightarrow>
     snd (StartForkServer roles t pre h c) = c\<lparr>fifo_path := ([], []), pipe := (-1, -1)\<rparr>"
  by (cases h) (simp_all add: StartForkServer_def)

text \<open>
  C6. \<open>StartForkServer\<close> returns true exactly when the handshake is established,
  and false when the target does not support the protocol or the handshake times out.
  After a false return, every later \<open>Execute\<close> call on the instance spawns a fresh
  process, and the statuses of any sequence of such calls are those of the same calls
  on a command constructed from the same inputs that never attempted a fork server.
\<close>

theorem failed_fork_server_falls_back:
  "(fst (StartForkServer roles t pre h c) \<longleftrightarrow> (\<exists>rq rs. h = Established rq rs))
   \<and> (h = Unsupported \<or> h = Timed_Out \<longrightarrow> \<not> fst (StartForkServer roles t pre h c))
   \<and> (\<not> fst (StartForkServer roles t pre h c) \<longrightarrow>
        fst (Execute_all oss (snd (StartForkServer roles t pre h c))) =
          map (\<lambda>os. direct_exec os (path c) (args c) (env c) (out c) (err c)) oss
        \<and> fst (Execute_all oss (snd (StartForkServer roles t pre h c))) =
          fst (Execute_all oss (Command_ctor merged (path c) (args c) (env c) (out c) (err c))))"
proof -
  have 1: "fst (Execute_all oss (snd (StartForkServer roles t pre h c))) =
          map (\<lambda>os. direct_exec os (path c) (args c) (env c) (out c) (err c)) oss"
    if f: "\<not> fst (StartForkServer roles t pre h c)"
  proof -
    have "\<not> fork_server_active (c\<lparr>fifo_path := ([], []), pipe := (-1, -1)\<rparr>)"
      by (simp add: fork_server_active_def)
    from Execute_all_inactive [OF this] show ?thesis
      by (simp add: StartForkServer_failed [OF f])
  qed
  have "\<not> fork_server_active (Command_ctor merged (path c) (args c) (env c) (out c) (err c))"
    by (simp add: fork_server_active_def ctor_pipe)
  from Execute_all_inactive [OF this]
  have 2: "fst (Execute_all oss (Command_ctor merged (path c) (args c) (env c) (out c) (err c))) =
          map (\<lambda>os. direct_exec os (path c) (args c) (env c) (out c) (err c)) oss"
    by (simp add: Command_ctor_def Let_def)
  from 1 2 show ?thesis
    by (auto simp: StartForkServer_result)
qed


theorem failed_fork_server_falls_back_witness:
  "\<not> fst (StartForkServer (''_request'', ''_response'') ''/tmp'' ''fs'' Timed_Out
          (Command_ctor id ''/bin/target'' [''x''] [] [] []))
   \<and> fst (Execute_all
        [\<lparr>direct_exec = (\<lambda>p a e ot er. 7), fork_server_exec = (\<lambda>rq rs. Some 0), failure_status = - 1\<rparr>,
         \<lparr>direct_exec = (\<lambda>p a e ot er. 9), fork_server_exec = (\<lambda>rq rs. None), failure_status = - 1\<rparr>]
        (snd (StartForkServer (''_request'', ''_response'') ''/tmp'' ''fs'' Timed_Out
          (Command_ctor id ''/bin/target'' [''x''] [] [] [])))) = [7, 9]
   \<and> fst (StartForkServer (''_request'', ''_response'') ''/tmp'' ''fs'' (Established 3 4)
          (Command_ctor id ''/bin/target'' [''x''] [] [] []))"
  using failed_fork_server_falls_back [of "(''_request'', ''_response'')" "''/tmp''" "''fs''" Timed_Out
      "Command_ctor id ''/bin/target'' [''x''] [] [] []"
      "[\<lparr>direct_exec = (\<lambda>p a e ot er. 7), fork_server_exec = (\<lambda>rq rs. Some 0), failure_status = - 1\<rparr>,
         \<lparr>direct_exec = (\<lambda>p a e ot er. 9), fork_server_exec = (\<lambda>rq rs. None), failure_status = - 1\<rparr>]" id]
    failed_fork_server_falls_back [of "(''_request'', ''_response'')" "''/tmp''" "''fs''" "Established 3 4"
      "Command_ctor id ''/bin/target'' [''x''] [] [] []" "[]" id]
  by simp


section \<open>The delta invariant of the profiler\<close>

lemma TakeSnapshot_deltas_ok:
  assumes "deltas_ok ratio cores (snapshots p)"
  shows "deltas_ok ratio cores (snapshots (snd (TakeSnapshot ratio cores cap p)))"
proof (cases "snapshots p = []")
  case True
  then show ?thesis by (simp add: deltas_ok_def TakeSnapshot_def Let_def)
next
  case False
  let ?ss = "snapshots p"
  let ?s = "fst (TakeSnapshot ratio cores cap p)"
  have snaps: "snapshots (snd (TakeSnapshot ratio cores cap p)) = ?ss @ [?s]"
    by (simp add: TakeSnapshot_def Let_def)
  have new: "delta_timing ?s = timing_minus ratio cores (timing ?s) (timing (last ?ss))"
    "delta_memory ?s = memory_minus (memory ?s) (memory (last ?ss))"
    using False by (simp_all add: TakeSnapshot_def Let_def)
  show ?thesis
    unfolding snaps deltas_ok_def
  proof (intro conjI impI allI)
    from assms False show "delta_timing ((?ss @ [?s]) ! 0) = zero_timing"
      by (simp add: deltas_ok_def nth_append)
    from assms False show "delta_memory ((?ss @ [?s]) ! 0) = zero_memory"
      by (simp add: deltas_ok_def nth_append)
  next
    fix i assume i: "Suc i < length (?ss @ [?s])"
    show "delta_timing ((?ss @ [?s]) ! Suc i) =
        timing_minus ratio cores (timing ((?ss @ [?s]) ! Suc i)) (timing ((?ss @ [?s]) ! i))"
    proof (cases "Suc i < length ?ss")
      case True
      with assms show ?thesis by (simp add: deltas_ok_def nth_append)
    next
      case False
      with i have l: "Suc i = length ?ss" by simp
      have "last ?ss = ?ss ! (length ?ss - 1)" using \<open>?ss \<noteq> []\<close> by (rule last_conv_nth)
      also have "length ?ss - 1 = i" using l [symmetric] by simp
      finally have "last ?ss = ?ss ! i" .
      with l new(1) show ?thesis by (simp add: nth_append)
    qed
    show "delta_memory ((?ss @ [?s]) ! Suc i) =
        memory_minus (memory ((?ss @ [?s]) ! Suc i)) (memory ((?ss @ [?s]) ! i))"
    proof (cases "Suc i < length ?ss")
      case True
      with assms show ?thesis by (simp add: deltas_ok_def nth_append)
    next
      case False
      with i have l: "Suc i = length ?ss" by simp
      have "last ?ss = ?ss ! (length ?ss - 1)" using \<open>?ss \<noteq> []\<close> by (rule last_conv_nth)
      also have "length ?ss - 1 = i" using l [symmetric] by simp
      finally have "last ?ss = ?ss ! i" .
      with l new(2) show ?thesis by (simp add: nth_append)
    qed
  qed
qed

lemma take_snapshots_deltas_ok:
  "deltas_ok ratio cores (snapshots p) \<Longrightarrow>
     deltas_ok ratio cores (snapshots (take_snapshots ratio cores caps p))"
  by (induction caps arbitrary: p) (simp_all add: TakeSnapshot_deltas_ok)

lemma take_snapshots_samples:
  "map timing (snapshots (take_snapshots ratio cores caps p)) = map timing (snapshots p) @ map timing_now caps
   \<and> map memory (snapshots (take_snapshots ratio cores caps p)) = map memory (snapshots p) @ map memory_now caps"
  by (induction caps arbitrary: p) (simp_all add: TakeSnapshot_def Let_def)


lemma deltas_ok_new: "deltas_ok ratio cores (snapshots new_profiler)"
  by (simp add: deltas_ok_def new_profiler_def)

text \<open>
  C4. Let \<open>ss\<close> be the snapshot sequence of a profiler after any sequence of
  captures. Its samples are the captured ones, in order. The delta of the first
  snapshot is the zero delta. For every \<open>i \<ge> 1\<close>, the delta of snapshot \<open>i\<close> is
  its sample minus the sample of snapshot \<open>i - 1\<close> and of no other: every memory
  field and every time field is the arithmetic difference, and utilization and
  hyper-core count of the timing delta are recomputed from the differenced times.
  Equality is of values; the \<^verbatim>\<open>==\<close> of doubles is not modelled.
\<close>

theorem delta_invariant:
  assumes "ss = snapshots (take_snapshots ratio cores caps new_profiler)"
  shows "map timing ss = map timing_now caps \<and> map memory ss = map memory_now caps
    \<and> (ss \<noteq> [] \<longrightarrow> delta_timing (ss ! 0) = zero_timing \<and> delta_memory (ss ! 0) = zero_memory)
    \<and> (\<forall>i. 1 \<le> i \<and> i < length ss \<longrightarrow>
          delta_memory (ss ! i) = memory_minus (memory (ss ! i)) (memory (ss ! (i - 1)))
        \<and> mem_vsize (delta_memory (ss ! i)) = mem_vsize (memory (ss ! i)) - mem_vsize (memory (ss ! (i - 1)))
        \<and> mem_vpeak (delta_memory (ss ! i)) = mem_vpeak (memory (ss ! i)) - mem_vpeak (memory (ss ! (i - 1)))
        \<and> mem_rss (delta_memory (ss ! i)) = mem_rss (memory (ss ! i)) - mem_rss (memory (ss ! (i - 1)))
        \<and> mem_data (delta_memory (ss ! i)) = mem_data (memory (ss ! i)) - mem_data (memory (ss ! (i - 1)))
        \<and> delta_timing (ss ! i) = timing_minus ratio cores (timing (ss ! i)) (timing (ss ! (i - 1)))
        \<and> wall_time (delta_timing (ss ! i)) = wall_time (timing (ss ! i)) - wall_time (timing (ss ! (i - 1)))
        \<and> user_time (delta_timing (ss ! i)) = user_time (timing (ss ! i)) - user_time (timing (ss ! (i - 1)))
        \<and> sys_time (delta_timing (ss ! i)) = sys_time (timing (ss ! i)) - sys_time (timing (ss ! (i - 1)))
        \<and> cpu_utilization (delta_timing (ss ! i)) =
            ratio (user_time (delta_timing (ss ! i)) + sys_time (delta_timing (ss ! i)))
              (wall_time (delta_timing (ss ! i)))
        \<and> cpu_hyper_cores (delta_timing (ss ! i)) = cores (cpu_utilization (delta_timing (ss ! i))))"
proof -
  have ok: "deltas_ok ratio cores ss"
    unfolding assms by (rule take_snapshots_deltas_ok [OF deltas_ok_new])
  have samples: "map timing ss = map timing_now caps" "map memory ss = map memory_now caps"
    using take_snapshots_samples [of ratio cores caps new_profiler]
    by (simp_all add: assms new_profiler_def)
  have first: "ss \<noteq> [] \<longrightarrow> delta_timing (ss ! 0) = zero_timing \<and> delta_memory (ss ! 0) = zero_memory"
    using ok by (simp add: deltas_ok_def)
  have later: "delta_timing (ss ! i) = timing_minus ratio cores (timing (ss ! i)) (timing (ss ! (i - 1)))"
      "delta_memory (ss ! i) = memory_minus (memory (ss ! i)) (memory (ss ! (i - 1)))"
    if "1 \<le> i" "i < length ss" for i
  proof -
    from that obtain k where k: "i = Suc k" by (cases i) auto
    with that ok
    show "delta_timing (ss ! i) = timing_minus ratio cores (timing (ss ! i)) (timing (ss ! (i - 1)))"
      "delta_memory (ss ! i) = memory_minus (memory (ss ! i)) (memory (ss ! (i - 1)))"
      by (simp_all add: deltas_ok_def)
  qed
  have fields: "mem_vsize (memory_minus a b) = mem_vsize a - mem_vsize b"
    "mem_vpeak (memory_minus a b) = mem_vpeak a - mem_vpeak b"
    "mem_rss (memory_minus a b) = mem_rss a - mem_rss b"
    "mem_data (memory_minus a b) = mem_data a - mem_data b" for a b
    by (simp_all add: memory_minus_def)
  have tfields: "wall_time (timing_minus ratio cores x y) = wall_time x - wall_time y"
    "user_time (timing_minus ratio cores x y) = user_time x - user_time y"
    "sys_time (timing_minus ratio cores x y) = sys_time x - sys_time y"
    "cpu_utilization (timing_minus ratio cores x y) =
       ratio (user_time (timing_minus ratio cores x y) + sys_time (timing_minus ratio cores x y))
         (wall_time (timing_minus ratio cores x y))"
    "cpu_hyper_cores (timing_minus ratio cores x y) = cores (cpu_utilization (timing_minus ratio cores x y))"
    for x y :: "'a RUsageTiming"
    by (simp_all add: timing_minus_def timing_of_def)
  show ?thesis
  proof (intro conjI allI impI)
    fix i assume "1 \<le> i \<and> i < length ss"
    then have i: "1 \<le> i" "i < length ss" by simp_all
    note l = later [OF i]
    show "delta_memory (ss ! i) = memory_minus (memory (ss ! i)) (memory (ss ! (i - 1)))" by (rule l)
    show "delta_timing (ss ! i) = timing_minus ratio cores (timing (ss ! i)) (timing (ss ! (i - 1)))" by (rule l)
    show "mem_vsize (delta_memory (ss ! i)) = mem_vsize (memory (ss ! i)) - mem_vsize (memory (ss ! (i - 1)))"
      by (simp only: l fields)
    show "mem_vpeak (delta_memory (ss ! i)) = mem_vpeak (memory (ss ! i)) - mem_vpeak (memory (ss ! (i - 1)))"
      by (simp only: l fields)
    show "mem_rss (delta_memory (ss ! i)) = mem_rss (memory (ss ! i)) - mem_rss (memory (ss ! (i - 1)))"
      by (simp only: l fields)
    show "mem_data (delta_memory (ss ! i)) = mem_data (memory (ss ! i)) - mem_data (memory (ss ! (i - 1)))"
      by (simp only: l fields)
    show "wall_time (delta_timing (ss ! i)) = wall_time (timing (ss ! i)) - wall_time (timing (ss ! (i - 1)))"
      by (simp only: l tfields)
    show "user_time (delta_timing (ss ! i)) = user_time (timing (ss ! i)) - user_time (timing (ss ! (i - 1)))"
      by (simp only: l tfields)
    show "sys_time (delta_timing (ss ! i)) = sys_time (timing (ss ! i)) - sys_time (timing (ss ! (i - 1)))"
      by (simp only: l tfields)
    show "cpu_utilization (delta_timing (ss ! i)) =
            ratio (user_time (delta_timing (ss ! i)) + sys_time (delta_timing (ss ! i)))
              (wall_time (delta_timing (ss ! i)))"
      unfolding l by (rule tfields)
    show "cpu_hyper_cores (delta_timing (ss ! i)) = cores (cpu_utilization (delta_timing (ss ! i)))"
      unfolding l by (rule tfields)
  qed (use samples first in simp_all)
qed

theorem delta_invariant_witness:
  "delta_timing (snapshots (take_snapshots percent id
      [\<lparr>at_label = ''before'', at_time = 0, timing_now = timing_of percent id 10 5 0,
        memory_now = \<lparr>mem_vsize = 100, mem_vpeak = 100, mem_rss = 40, mem_data = 30\<rparr>\<rparr>,
       \<lparr>at_label = ''after'', at_time = 10, timing_now = timing_of percent id 20 12 3,
        memory_now = \<lparr>mem_vsize = 90, mem_vpeak = 120, mem_rss = 50, mem_data = 20\<rparr>\<rparr>]
      new_profiler) ! 1)
     = \<lparr>wall_time = 10, user_time = 7, sys_time = 3, cpu_utilization = 100, cpu_hyper_cores = 100\<rparr>
   \<and> delta_memory (snapshots (take_snapshots percent id
      [\<lparr>at_label = ''before'', at_time = 0, timing_now = timing_of percent id 10 5 0,
        memory_now = \<lparr>mem_vsize = 100, mem_vpeak = 100, mem_rss = 40, mem_data = 30\<rparr>\<rparr>,
       \<lparr>at_label = ''after'', at_time = 10, timing_now = timing_of percent id 20 12 3,
        memory_now = \<lparr>mem_vsize = 90, mem_vpeak = 120, mem_rss = 50, mem_data = 20\<rparr>\<rparr>]
      new_profiler) ! 1)
     = \<lparr>mem_vsize = - 10, mem_vpeak = 20, mem_rss = 10, mem_data = - 10\<rparr>
   \<and> delta_timing (snapshots (take_snapshots percent id
      [\<lparr>at_label = ''before'', at_time = 0, timing_now = timing_of percent id 10 5 0,
        memory_now = \<lparr>mem_vsize = 100, mem_vpeak = 100, mem_rss = 40, mem_data = 30\<rparr>\<rparr>,
       \<lparr>at_label = ''after'', at_time = 10, timing_now = timing_of percent id 20 12 3,
        memory_now = \<lparr>mem_vsize = 90, mem_vpeak = 120, mem_rss = 50, mem_data = 20\<rparr>\<rparr>]
      new_profiler) ! 0) = zero_timing"
proof -
  let ?caps = "[\<lparr>at_label = ''before'', at_time = 0, timing_now = timing_of percent id 10 5 0,
        memory_now = \<lparr>mem_vsize = 100, mem_vpeak = 100, mem_rss = 40, mem_data = 30\<rparr>\<rparr>,
       \<lparr>at_label = ''after'', at_time = 10, timing_now = timing_of percent id 20 12 3,
        memory_now = \<lparr>mem_vsize = 90, mem_vpeak = 120, mem_rss = 50, mem_data = 20\<rparr>\<rparr>]"
  let ?ss = "snapshots (take_snapshots percent id ?caps new_profiler)"
  have len: "length ?ss = 2" "?ss \<noteq> []"
    by (simp_all add: TakeSnapshot_def Let_def new_profiler_def)
  have s: "timing (?ss ! 1) = timing_of percent id 20 12 3" "timing (?ss ! 0) = timing_of percent id 10 5 0"
    "memory (?ss ! 1) = \<lparr>mem_vsize = 90, mem_vpeak = 120, mem_rss = 50, mem_data = 20\<rparr>"
    "memory (?ss ! 0) = \<lparr>mem_vsize = 100, mem_vpeak = 100, mem_rss = 40, mem_data = 30\<rparr>"
    by (simp_all add: TakeSnapshot_def Let_def new_profiler_def)
  have i: "(1::nat) \<le> 1 \<and> 1 < length ?ss" using len by simp
  note inv = delta_invariant [of ?ss percent id ?caps, OF refl]
  from inv len(2) have z: "delta_timing (?ss ! 0) = zero_timing" by blast
  from inv i have t: "delta_timing (?ss ! 1) =
      timing_minus percent id (timing (?ss ! 1)) (timing (?ss ! (1 - 1)))" by blast
  from inv i have m: "delta_memory (?ss ! 1) =
      memory_minus (memory (?ss ! 1)) (memory (?ss ! (1 - 1)))" by blast
  have t': "delta_timing (?ss ! 1) =
      \<lparr>wall_time = 10, user_time = 7, sys_time = 3, cpu_utilization = 100, cpu_hyper_cores = 100\<rparr>"
    unfolding t diff_self_eq_0 s by (simp add: timing_minus_def timing_of_def percent_def)
  have m': "delta_memory (?ss ! 1) =
      \<lparr>mem_vsize = - 10, mem_vpeak = 20, mem_rss = 10, mem_data = - 10\<rparr>"
    unfolding m diff_self_eq_0 s by (simp add: memory_minus_def)
  from t' m' z show ?thesis by (intro conjI)
qed


end
